theory Spec2Isabelle
  imports Main
begin

section \<open>Decimal numerals and the OTP generator\<close>

text \<open>
  \<^verbatim>\<open>function generateOTP() { return crypto.randomInt(100000, 999999).toString(); }\<close>

  \<open>crypto.randomInt(min, max)\<close> of Node.js returns an integer \<open>n\<close> with
  \<open>min \<le> n < max\<close> (the upper bound is exclusive); it reduces a raw random number
  modulo \<open>max - min\<close> and adds \<open>min\<close>. The raw number is the parameter \<open>draw\<close>.
  \<open>Number.prototype.toString\<close> writes a non-negative integer in decimal.
\<close>

definition digit_char :: "nat \<Rightarrow> char" where
  "digit_char d = char_of (48 + d)"

definition digit_val :: "char \<Rightarrow> nat" where
  "digit_val c = of_char c - 48"

fun toString :: "nat \<Rightarrow> string" where
  "toString n =
     (if n < 10 then [digit_char n] else toString (n div 10) @ [digit_char (n mod 10)])"

declare toString.simps [simp del]

definition parse_nat :: "string \<Rightarrow> nat" where
  "parse_nat s = foldl (\<lambda>a c. 10 * a + digit_val c) 0 s"

definition randomInt :: "nat \<Rightarrow> nat \<Rightarrow> nat \<Rightarrow> nat" where
  "randomInt lo hi draw = lo + draw mod (hi - lo)"

definition generateOTP :: "nat \<Rightarrow> string" where
  "generateOTP draw = toString (randomInt 100000 999999 draw)"

section \<open>The institutional e-mail pattern\<close>

text \<open>
  The routes \<open>/seen\<close> and \<open>/claim\<close> test
  \<^verbatim>\<open>!email || !email.match(/^[a-zA-Z0-9]+[0-9]{4}\.(?:be|btech|mtech|phd)[a-zA-Z]{2,4}[0-9]{2}@chitkara\.edu\.in$/)\<close>.
  The pattern is anchored at both ends, so \<open>match\<close> returns a result exactly when
  the whole string belongs to the language of the expression. Membership is decided by
  derivatives of the expression.
\<close>

datatype rexp = Zero | Eps | Range char char | Alt rexp rexp | Seq rexp rexp | Star rexp

definition in_range :: "char \<Rightarrow> char \<Rightarrow> char \<Rightarrow> bool" where
  "in_range lo hi c = ((of_char lo :: nat) \<le> of_char c \<and> (of_char c :: nat) \<le> of_char hi)"

primrec nullable :: "rexp \<Rightarrow> bool" where
  "nullable Zero = False"
| "nullable Eps = True"
| "nullable (Range lo hi) = False"
| "nullable (Alt r s) = (nullable r \<or> nullable s)"
| "nullable (Seq r s) = (nullable r \<and> nullable s)"
| "nullable (Star r) = True"

primrec deriv :: "char \<Rightarrow> rexp \<Rightarrow> rexp" where
  "deriv c Zero = Zero"
| "deriv c Eps = Zero"
| "deriv c (Range lo hi) = (if in_range lo hi c then Eps else Zero)"
| "deriv c (Alt r s) = Alt (deriv c r) (deriv c s)"
| "deriv c (Seq r s) =
     (if nullable r then Alt (Seq (deriv c r) s) (deriv c s) else Seq (deriv c r) s)"
| "deriv c (Star r) = Seq (deriv c r) (Star r)"

primrec matches :: "rexp \<Rightarrow> string \<Rightarrow> bool" where
  "matches r [] = nullable r"
| "matches r (c # cs) = matches (deriv c r) cs"

definition Chr :: "char \<Rightarrow> rexp" where
  "Chr c = Range c c"

primrec Str :: "string \<Rightarrow> rexp" where
  "Str [] = Eps"
| "Str (c # cs) = Seq (Chr c) (Str cs)"

definition Plus :: "rexp \<Rightarrow> rexp" where
  "Plus r = Seq r (Star r)"

primrec Rep :: "nat \<Rightarrow> rexp \<Rightarrow> rexp" where
  "Rep 0 r = Eps"
| "Rep (Suc n) r = Seq r (Rep n r)"

definition Opt :: "rexp \<Rightarrow> rexp" where
  "Opt r = Alt r Eps"

definition alpha :: rexp where
  "alpha = Alt (Range CHR ''a'' CHR ''z'') (Range CHR ''A'' CHR ''Z'')"

definition digit :: rexp where
  "digit = Range CHR ''0'' CHR ''9''"

definition alnum :: rexp where
  "alnum = Alt alpha digit"

definition email_re :: rexp where
  "email_re =
     Seq (Plus alnum) (Seq (Rep 4 digit) (Seq (Chr CHR ''.'')
       (Seq (Alt (Str ''be'') (Alt (Str ''btech'') (Alt (Str ''mtech'') (Str ''phd''))))
         (Seq (Seq (Rep 2 alpha) (Seq (Opt alpha) (Opt alpha)))
           (Seq (Rep 2 digit) (Str ''@chitkara.edu.in''))))))"

definition valid_email :: "string \<Rightarrow> bool" where
  "valid_email e = (e \<noteq> [] \<and> matches email_re e)"

section \<open>Data model of \<open>server.js\<close>\<close>

text \<open>
  The Mongoose schema \<open>itemSchema\<close> with its two embedded arrays. Dates are milliseconds
  since the epoch. \<open>status\<close> is a string restricted by the schema's \<open>enum\<close> validator,
  which \<open>save()\<close> runs.
\<close>

record seen_entry =
  seen_name :: string
  seen_phone :: string
  seen_details :: string
  seen_date :: nat
  seen_email :: string

record claim_entry =
  claim_name :: string
  claim_email :: string
  claim_details :: string
  claim_date :: nat

record item =
  name :: string
  description :: string
  location :: string
  date :: nat
  status :: string
  photo :: "string option"
  photoPublicId :: "string option"
  yourName :: string
  yourEmail :: string
  seenBy :: "seen_entry list"
  claims :: "claim_entry list"

definition status_enum :: "string list" where
  "status_enum = [''lost'', ''found'', ''resolved'']"

text \<open>
  The values \<open>otpStore\<close> holds: \<open>{ otp, expiry }\<close>, and \<open>itemId\<close> in the item-bound
  variant of the OTP request.
\<close>

record otp_data =
  otp :: string
  expiry :: nat
  itemId :: "string option"

text \<open>
  The process state: the four module-level containers and the \<open>Lost-found\<close> collection,
  keyed by document id.
\<close>

record state =
  otpStore :: "string \<rightharpoonup> otp_data"
  verifiedEmails :: "string set"
  claimCounts :: "string \<rightharpoonup> nat"
  seenCounts :: "string \<rightharpoonup> nat"
  items :: "string \<rightharpoonup> item"

definition init_state :: state where
  "init_state = \<lparr>otpStore = Map.empty, verifiedEmails = {}, claimCounts = Map.empty,
     seenCounts = Map.empty, items = Map.empty\<rparr>"

text \<open>
  What a request reads from outside the process: the clock (\<open>Date.now()\<close>), the random
  source, whether \<open>transporter.sendMail\<close> resolves, whether the database calls resolve
  or throw (as they do when the server is unreachable or the id is malformed), the result
  of the Cloudinary upload (\<open>secure_url\<close>, \<open>public_id\<close>; \<open>None\<close> when it throws) and
  the \<open>_id\<close> given to a new document.
\<close>

record env =
  now :: nat
  draw :: nat
  mail_ok :: bool
  db_ok :: bool
  upload :: "(string \<times> string) option"
  new_id :: string

text \<open>
  A failed request is the HTTP status with the kind of failure; the kinds name the
  messages of the source:
  \<^item> \<open>ValidationError\<close>: a required field is missing (400), or \<open>save()\<close> rejects the
    document (500, through the \<open>catch\<close> block);
  \<^item> \<open>NotFound\<close>: \<open>No OTP found for this email\<close> (400) or \<open>Item not found\<close> (404);
  \<^item> \<open>Expired\<close>: \<open>OTP has expired\<close>; \<open>Mismatch\<close>: \<open>Invalid OTP\<close>;
  \<^item> \<open>DeliveryFailed\<close>: \<open>Error sending OTP\<close>;
  \<^item> \<open>NotVerified\<close>: \<open>Email not verified\<close>;
  \<^item> \<open>UploadFailed\<close>: \<open>Error uploading image\<close>;
  \<^item> \<open>InvalidEmail\<close>: \<open>Valid Chitkara University email is required.\<close>;
  \<^item> \<open>QuotaExceeded\<close>: \<open>You have reached the maximum number of ...\<close>;
  \<^item> \<open>Unauthorized\<close>: \<open>You are not authorized to resolve this item\<close>;
  \<^item> \<open>StorageError\<close>: a database call threw, caught by the route's \<open>catch\<close> block.
\<close>

datatype error = ValidationError | NotFound | Expired | Mismatch | DeliveryFailed
  | NotVerified | UploadFailed | InvalidEmail | QuotaExceeded | Unauthorized | StorageError

type_synonym failure = "nat \<times> error"

section \<open>The routes of \<open>server.js\<close>\<close>

text \<open>\<open>POST /api/request-otp\<close>: the mail is sent before the record is stored.\<close>

definition post_request_otp :: "state \<Rightarrow> env \<Rightarrow> string \<Rightarrow> (failure + unit) \<times> state" where
  "post_request_otp s ev email =
     (if email = [] then (Inl (400, ValidationError), s)
      else let code = generateOTP (draw ev) in
        if mail_ok ev
        then (Inr (), s\<lparr>otpStore := (otpStore s)(email \<mapsto>
                \<lparr>otp = code, expiry = now ev + 600000, itemId = None\<rparr>)\<rparr>)
        else (Inl (500, DeliveryFailed), s))"

text \<open>\<open>POST /api/verify-otp\<close>\<close>

definition post_verify_otp :: "state \<Rightarrow> env \<Rightarrow> string \<Rightarrow> string \<Rightarrow> (failure + unit) \<times> state" where
  "post_verify_otp s ev email code =
     (if email = [] \<or> code = [] then (Inl (400, ValidationError), s)
      else case otpStore s email of
        None \<Rightarrow> (Inl (400, NotFound), s)
      | Some storedOTPData \<Rightarrow>
          if now ev > expiry storedOTPData
          then (Inl (400, Expired), s\<lparr>otpStore := (otpStore s)(email := None)\<rparr>)
          else if code \<noteq> otp storedOTPData then (Inl (400, Mismatch), s)
          else (Inr (), s\<lparr>verifiedEmails := insert email (verifiedEmails s),
                           otpStore := (otpStore s)(email := None)\<rparr>))"

text \<open>
  \<open>POST /api/items\<close>. The body fields arrive as strings, an absent field as the empty
  string (both are falsy); \<open>file\<close> is the path of the uploaded photo, if any.
\<close>

record item_body =
  body_name :: string
  body_description :: string
  body_location :: string
  body_status :: string
  body_yourName :: string
  body_yourEmail :: string
  body_file :: "string option"

definition post_items :: "state \<Rightarrow> env \<Rightarrow> item_body \<Rightarrow> (failure + item) \<times> state" where
  "post_items s ev body =
     (if body_name body = [] \<or> body_description body = [] \<or> body_location body = []
         \<or> body_status body = [] \<or> body_yourName body = [] \<or> body_yourEmail body = []
      then (Inl (400, ValidationError), s)
      else if body_yourEmail body \<notin> verifiedEmails s then (Inl (400, NotVerified), s)
      else if body_file body \<noteq> None \<and> upload ev = None then (Inl (500, UploadFailed), s)
      else let newItem = \<lparr>name = body_name body, description = body_description body,
                 location = body_location body, date = now ev, status = body_status body,
                 photo = (if body_file body = None then None else map_option fst (upload ev)),
                 photoPublicId = (if body_file body = None then None else map_option snd (upload ev)),
                 yourName = body_yourName body, yourEmail = body_yourEmail body,
                 seenBy = [], claims = []\<rparr> in
        if status newItem \<notin> set status_enum then (Inl (500, ValidationError), s)
        else if db_ok ev
        then (Inr newItem, s\<lparr>items := (items s)(new_id ev \<mapsto> newItem),
                               verifiedEmails := verifiedEmails s - {body_yourEmail body}\<rparr>)
        else (Inl (500, StorageError), s))"

text \<open>
  \<open>counts.get(email) || 0\<close>: the stored count, and 0 for an e-mail without an entry.
\<close>

definition count_of :: "(string \<rightharpoonup> nat) \<Rightarrow> string \<Rightarrow> nat" where
  "count_of counts email = (case counts email of None \<Rightarrow> 0 | Some n \<Rightarrow> n)"

text \<open>
  \<open>POST /api/items/:id/seen\<close>. The result of a successful request is the flag
  \<open>notificationSent\<close>.
\<close>

record seen_body =
  sb_name :: string
  sb_phone :: string
  sb_details :: string
  sb_email :: string

definition post_items_seen :: "state \<Rightarrow> env \<Rightarrow> string \<Rightarrow> seen_body \<Rightarrow> (failure + bool) \<times> state" where
  "post_items_seen s ev ident body =
     (if valid_email (sb_email body)
      then let seenCount = count_of (seenCounts s) (sb_email body) in
        if seenCount \<ge> 2 then (Inl (400, QuotaExceeded), s)
        else if db_ok ev
        then case items s ident of
            None \<Rightarrow> (Inl (404, NotFound), s)
          | Some it \<Rightarrow>
              (Inr (mail_ok ev),
               s\<lparr>items := (items s)(ident \<mapsto> it\<lparr>seenBy := seenBy it @
                     [\<lparr>seen_name = sb_name body, seen_phone = sb_phone body,
                       seen_details = sb_details body, seen_date = now ev,
                       seen_email = sb_email body\<rparr>]\<rparr>),
                 seenCounts := (seenCounts s)(sb_email body \<mapsto> seenCount + 1)\<rparr>)
        else (Inl (500, StorageError), s)
      else (Inl (400, InvalidEmail), s))"

text \<open>\<open>POST /api/items/:id/claim\<close>\<close>

record claim_body =
  cb_name :: string
  cb_email :: string
  cb_details :: string

definition post_items_claim :: "state \<Rightarrow> env \<Rightarrow> string \<Rightarrow> claim_body \<Rightarrow> (failure + bool) \<times> state" where
  "post_items_claim s ev ident body =
     (if valid_email (cb_email body)
      then if cb_email body \<in> verifiedEmails s
        then let claimCount = count_of (claimCounts s) (cb_email body) in
          if claimCount \<ge> 2 then (Inl (400, QuotaExceeded), s)
          else if db_ok ev
          then case items s ident of
              None \<Rightarrow> (Inl (404, NotFound), s)
            | Some it \<Rightarrow>
                (Inr (mail_ok ev),
                 s\<lparr>items := (items s)(ident \<mapsto> it\<lparr>claims := claims it @
                       [\<lparr>claim_name = cb_name body, claim_email = cb_email body,
                         claim_details = cb_details body, claim_date = now ev\<rparr>]\<rparr>),
                   claimCounts := (claimCounts s)(cb_email body \<mapsto> claimCount + 1)\<rparr>)
          else (Inl (500, StorageError), s)
        else (Inl (403, NotVerified), s)
      else (Inl (400, InvalidEmail), s))"

text \<open>
  \<open>POST /api/items/:id/resolve\<close> of \<open>server.js\<close>: the item is looked up, the e-mail is
  compared with the reporter's, the status is set and saved.
\<close>

definition post_items_resolve :: "state \<Rightarrow> env \<Rightarrow> string \<Rightarrow> string \<Rightarrow> (failure + bool) \<times> state" where
  "post_items_resolve s ev ident email =
     (if db_ok ev
      then case items s ident of
          None \<Rightarrow> (Inl (404, NotFound), s)
        | Some it \<Rightarrow>
            if email \<noteq> yourEmail it then (Inl (403, Unauthorized), s)
            else (Inr (mail_ok ev), s\<lparr>items := (items s)(ident \<mapsto> it\<lparr>status := ''resolved''\<rparr>)\<rparr>)
      else (Inl (500, StorageError), s))"

section \<open>The routes of the later revisions\<close>

text \<open>
  \<open>POST /api/items/:id/resolve\<close>, the ``Enhanced Resolve Endpoint'': after the
  comparison with the reporter's e-mail it tests \<open>verifiedEmails.has(email)\<close> and,
  once the item is saved, deletes the e-mail from the set.
\<close>

definition post_items_resolve_enhanced ::
    "state \<Rightarrow> env \<Rightarrow> string \<Rightarrow> string \<Rightarrow> (failure + bool) \<times> state" where
  "post_items_resolve_enhanced s ev ident email =
     (if db_ok ev
      then case items s ident of
          None \<Rightarrow> (Inl (404, NotFound), s)
        | Some it \<Rightarrow>
            if email \<noteq> yourEmail it then (Inl (403, Unauthorized), s)
            else if email \<notin> verifiedEmails s then (Inl (403, NotVerified), s)
            else (Inr (mail_ok ev),
                  s\<lparr>items := (items s)(ident \<mapsto> it\<lparr>status := ''resolved''\<rparr>),
                    verifiedEmails := verifiedEmails s - {email}\<rparr>)
      else (Inl (500, StorageError), s))"

text \<open>
  \<open>POST /api/items/:id/resolve\<close>, the ``Item Resolution'' revision: it first requires
  the e-mail and the item id, and its response does not report the notification. The
  schema of this revision gives \<open>yourEmail\<close> the validator \<open>match\<close> with the
  institutional pattern, which \<open>item.save()\<close> runs; a rejected document reaches the
  \<open>catch\<close> block.
\<close>

definition post_items_resolve_checked ::
    "state \<Rightarrow> env \<Rightarrow> string \<Rightarrow> string \<Rightarrow> (failure + unit) \<times> state" where
  "post_items_resolve_checked s ev ident email =
     (if email = [] \<or> ident = [] then (Inl (400, ValidationError), s)
      else if db_ok ev
      then case items s ident of
          None \<Rightarrow> (Inl (404, NotFound), s)
        | Some it \<Rightarrow>
            if email \<noteq> yourEmail it then (Inl (403, Unauthorized), s)
            else if email \<notin> verifiedEmails s then (Inl (403, NotVerified), s)
            else if valid_email (yourEmail it)
            then (Inr (),
                  s\<lparr>items := (items s)(ident \<mapsto> it\<lparr>status := ''resolved''\<rparr>),
                    verifiedEmails := verifiedEmails s - {email}\<rparr>)
            else (Inl (500, ValidationError), s)
      else (Inl (500, StorageError), s))"

text \<open>
  \<open>POST /api/items/:id/request-otp\<close>, the item-bound OTP request of the same revision:
  only the reporter's e-mail gets a code, and the record carries the item id. Here too
  the mail is sent before the record is stored.
\<close>

definition post_items_request_otp ::
    "state \<Rightarrow> env \<Rightarrow> string \<Rightarrow> string \<Rightarrow> (failure + unit) \<times> state" where
  "post_items_request_otp s ev ident email =
     (if email = [] \<or> ident = [] then (Inl (400, ValidationError), s)
      else if db_ok ev
      then case items s ident of
          None \<Rightarrow> (Inl (404, NotFound), s)
        | Some it \<Rightarrow>
            if email \<noteq> yourEmail it then (Inl (403, Unauthorized), s)
            else let code = generateOTP (draw ev) in
              if mail_ok ev
              then (Inr (), s\<lparr>otpStore := (otpStore s)(email \<mapsto>
                      \<lparr>otp = code, expiry = now ev + 600000, itemId = Some ident\<rparr>)\<rparr>)
              else (Inl (500, DeliveryFailed), s)
      else (Inl (500, StorageError), s))"

section \<open>The older document of \<open>server.js\<close>\<close>

text \<open>
  The older document has no resolve route, and its schema restricts \<open>status\<close> to
  \<open>enum: ['lost', 'found']\<close>. Its \<open>POST /api/items\<close> stores the photo locally under
  \<open>/uploads/\<close> (here \<open>body_file\<close> is the file name multer chose) and has no
  \<open>photoPublicId\<close>; the rest of the route is the same.
\<close>

definition status_enum_old :: "string list" where
  "status_enum_old = [''lost'', ''found'']"

definition post_items_old :: "state \<Rightarrow> env \<Rightarrow> item_body \<Rightarrow> (failure + item) \<times> state" where
  "post_items_old s ev body =
     (if body_name body = [] \<or> body_description body = [] \<or> body_location body = []
         \<or> body_status body = [] \<or> body_yourName body = [] \<or> body_yourEmail body = []
      then (Inl (400, ValidationError), s)
      else if body_yourEmail body \<notin> verifiedEmails s then (Inl (400, NotVerified), s)
      else let photoPath = map_option (\<lambda>filename. ''/uploads/'' @ filename) (body_file body);
               newItem = \<lparr>name = body_name body, description = body_description body,
                 location = body_location body, date = now ev, status = body_status body,
                 photo = photoPath, photoPublicId = None,
                 yourName = body_yourName body, yourEmail = body_yourEmail body,
                 seenBy = [], claims = []\<rparr> in
        if status newItem \<notin> set status_enum_old then (Inl (500, ValidationError), s)
        else if db_ok ev
        then (Inr newItem, s\<lparr>items := (items s)(new_id ev \<mapsto> newItem),
                               verifiedEmails := verifiedEmails s - {body_yourEmail body}\<rparr>)
        else (Inl (500, StorageError), s))"

section \<open>Sequential runs of the server\<close>

text \<open>
  The state-changing requests \<open>server.js\<close> serves, each with the route's arguments.
  A run handles a list of requests one after the other, each in its own environment,
  threading the state; \<open>respond\<close> keeps of a response only whether it failed, and how.
\<close>

datatype request =
    RequestOtp string
  | VerifyOtp string string
  | CreateItem item_body
  | Seen string seen_body
  | Claim string claim_body
  | Resolve string string

definition outcome :: "(failure + 'a) \<times> state \<Rightarrow> failure option \<times> state" where
  "outcome r = ((case fst r of Inl f \<Rightarrow> Some f | Inr x \<Rightarrow> None), snd r)"

fun respond :: "state \<Rightarrow> env \<Rightarrow> request \<Rightarrow> failure option \<times> state" where
  "respond s ev (RequestOtp email) = outcome (post_request_otp s ev email)"
| "respond s ev (VerifyOtp email code) = outcome (post_verify_otp s ev email code)"
| "respond s ev (CreateItem body) = outcome (post_items s ev body)"
| "respond s ev (Seen ident body) = outcome (post_items_seen s ev ident body)"
| "respond s ev (Claim ident body) = outcome (post_items_claim s ev ident body)"
| "respond s ev (Resolve ident email) = outcome (post_items_resolve s ev ident email)"

fun run :: "state \<Rightarrow> (env \<times> request) list \<Rightarrow> state" where
  "run s [] = s"
| "run s ((ev, rq) # rs) = run (snd (respond s ev rq)) rs"

text \<open>Whether a request is a sighting, or a claim, submitted with the e-mail \<open>e\<close>.\<close>

fun is_seen_by :: "string \<Rightarrow> request \<Rightarrow> bool" where
  "is_seen_by e (Seen ident body) = (sb_email body = e)"
| "is_seen_by e rq = False"

fun is_claim_by :: "string \<Rightarrow> request \<Rightarrow> bool" where
  "is_claim_by e (Claim ident body) = (cb_email body = e)"
| "is_claim_by e rq = False"

text \<open>The number of sightings, and of claims, by \<open>e\<close> that a run admits.\<close>

fun admitted_seen :: "string \<Rightarrow> state \<Rightarrow> (env \<times> request) list \<Rightarrow> nat" where
  "admitted_seen e s [] = 0"
| "admitted_seen e s ((ev, rq) # rs) =
     (if is_seen_by e rq \<and> fst (respond s ev rq) = None then 1 else 0)
       + admitted_seen e (snd (respond s ev rq)) rs"

fun admitted_claim :: "string \<Rightarrow> state \<Rightarrow> (env \<times> request) list \<Rightarrow> nat" where
  "admitted_claim e s [] = 0"
| "admitted_claim e s ((ev, rq) # rs) =
     (if is_claim_by e rq \<and> fst (respond s ev rq) = None then 1 else 0)
       + admitted_claim e (snd (respond s ev rq)) rs"

section \<open>Concrete requests and states\<close>

text \<open>Two institutional addresses, an item reported by the first, and an environment
  in which the mail transport and the database work.\<close>

definition alice :: string where
  "alice = ''alice1234.becse21@chitkara.edu.in''"

definition bob :: string where
  "bob = ''bob5678.btechece22@chitkara.edu.in''"

definition env0 :: env where
  "env0 = \<lparr>now = 0, draw = 0, mail_ok = True, db_ok = True, upload = None,
     new_id = ''item2''\<rparr>"

definition item1 :: item where
  "item1 = \<lparr>name = ''Umbrella'', description = ''Black umbrella'', location = ''Library'',
     date = 0, status = ''lost'', photo = None, photoPublicId = None,
     yourName = ''Alice'', yourEmail = alice, seenBy = [], claims = []\<rparr>"

definition state1 :: state where
  "state1 = init_state\<lparr>items := [''item1'' \<mapsto> item1]\<rparr>"

definition otp_state :: state where
  "otp_state = init_state\<lparr>otpStore :=
     [alice \<mapsto> \<lparr>otp = ''123456'', expiry = 600000, itemId = None\<rparr>]\<rparr>"

definition seen1 :: seen_body where
  "seen1 = \<lparr>sb_name = ''Bob'', sb_phone = ''5550100'', sb_details = ''Seen at the gate'',
     sb_email = bob\<rparr>"

definition claim1 :: claim_body where
  "claim1 = \<lparr>cb_name = ''Bob'', cb_email = bob, cb_details = ''It is mine''\<rparr>"

definition body2 :: item_body where
  "body2 = \<lparr>body_name = ''Wallet'', body_description = ''Brown wallet'',
     body_location = ''Gate 2'', body_status = ''found'', body_yourName = ''Bob'',
     body_yourEmail = bob, body_file = None\<rparr>"

definition body1 :: item_body where
  "body1 = \<lparr>body_name = ''Keys'', body_description = ''Bunch of keys'',
     body_location = ''Canteen'', body_status = ''resolved'', body_yourName = ''Alice'',
     body_yourEmail = alice, body_file = None\<rparr>"

text \<open>States in which one of the two addresses has been verified.\<close>

definition ver_state :: state where
  "ver_state = init_state\<lparr>verifiedEmails := {alice}\<rparr>"

definition quota_s0 :: state where
  "quota_s0 = state1\<lparr>verifiedEmails := {bob}\<rparr>"

text \<open>The state after one sighting by the second address.\<close>

definition quota_s1 :: state where
  "quota_s1 = snd (post_items_seen quota_s0 env0 ''item1'' seen1)"

text \<open>
  Two runs in which the submissions of the second address are interleaved with a
  sighting by the first address and with a resolve: in the first run one sighting and
  one claim by the second address have been admitted, in the second run two of each.
\<close>

definition seen2 :: seen_body where
  "seen2 = \<lparr>sb_name = ''Alice'', sb_phone = ''5550111'', sb_details = ''Near the lab'',
     sb_email = alice\<rparr>"

definition quota_run1 :: "(env \<times> request) list" where
  "quota_run1 = [(env0, Seen ''item1'' seen1), (env0, Seen ''item1'' seen2),
     (env0, Claim ''item1'' claim1)]"

definition quota_run2 :: "(env \<times> request) list" where
  "quota_run2 = quota_run1 @ [(env0, Seen ''item1'' seen1), (env0, Resolve ''item1'' alice),
     (env0, Seen ''item1'' seen2), (env0, Claim ''item1'' claim1)]"

text \<open>The first item once resolved, without and with a verified reporter.\<close>

definition resolved_state :: state where
  "resolved_state = init_state\<lparr>items := [''item1'' \<mapsto> item1\<lparr>status := ''resolved''\<rparr>]\<rparr>"

definition resolved_ver_state :: state where
  "resolved_ver_state = resolved_state\<lparr>verifiedEmails := {alice}\<rparr>"

section \<open>Facts about numerals and the generator\<close>

lemma digit_val_char: "d < 10 \<Longrightarrow> digit_val (digit_char d) = d"
  by (simp add: digit_val_def digit_char_def)

lemma parse_toString: "parse_nat (toString n) = n"
proof (induction n rule: toString.induct)
  case (1 n)
  show ?case
  proof (cases "n < 10")
    case True
    then show ?thesis
      by (simp add: toString.simps [of n] parse_nat_def digit_val_char)
  next
    case False
    with 1 have "parse_nat (toString (n div 10)) = n div 10"
      by simp
    with False show ?thesis
      by (simp add: toString.simps [of n] parse_nat_def digit_val_char)
  qed
qed

lemma toString_inj: "toString m = toString n \<Longrightarrow> m = n"
  by (metis parse_toString)

lemma toString_nonempty: "toString n \<noteq> []"
  by (simp add: toString.simps [of n])

lemma toString_length_6:
  assumes "100000 \<le> n" and "n < 1000000"
  shows "length (toString n) = 6"
proof -
  have "\<not> n < 10" "\<not> n div 10 < 10" "\<not> n div 10 div 10 < 10"
    "\<not> n div 10 div 10 div 10 < 10" "\<not> n div 10 div 10 div 10 div 10 < 10"
    "n div 10 div 10 div 10 div 10 div 10 < 10"
    using assms by simp_all
  then show ?thesis
    by (simp add: toString.simps [of n] toString.simps [of "n div 10"]
        toString.simps [of "n div 10 div 10"] toString.simps [of "n div 10 div 10 div 10"]
        toString.simps [of "n div 10 div 10 div 10 div 10"]
        toString.simps [of "n div 10 div 10 div 10 div 10 div 10"])
qed

lemma generateOTP_nonempty: "generateOTP d \<noteq> []"
  by (simp add: generateOTP_def toString_nonempty)

lemma toString_999999: "toString 999999 = ''999999''"
  by (simp add: toString.simps digit_char_def char_of_def bit_0)

lemma generateOTP_0: "generateOTP 0 = ''100000''"
  by (simp add: generateOTP_def randomInt_def toString.simps digit_char_def char_of_def bit_0)

lemma randomInt_bounds:
  assumes "lo < hi"
  shows "lo \<le> randomInt lo hi d \<and> randomInt lo hi d < hi"
proof -
  from assms have "d mod (hi - lo) < hi - lo"
    by simp
  then show ?thesis
    unfolding randomInt_def by linarith
qed

lemma randomInt_onto: "lo \<le> n \<Longrightarrow> n < hi \<Longrightarrow> randomInt lo hi (n - lo) = n"
  by (simp add: randomInt_def)

text \<open>
  Claim C7. The generator is meant to draw from all six-digit numbers, 100000 to
  999999. Every code it produces has six digits, but as \<open>crypto.randomInt\<close> excludes
  its upper bound, the code is the decimal numeral of a number from 100000 to 999998:
  the code \<open>999999\<close> is never produced.
\<close>

theorem generateOTP_never_999999:
  "generateOTP d \<noteq> ''999999'' \<and> length (generateOTP d) = 6 \<and>
   (\<exists>n. generateOTP d = toString n \<and> 100000 \<le> n \<and> n \<le> 999998)"
proof -
  let ?n = "randomInt 100000 999999 d"
  have b: "100000 \<le> ?n \<and> ?n < 999999"
    by (rule randomInt_bounds) simp
  have "toString ?n \<noteq> toString 999999"
    using b toString_inj [of ?n 999999] by auto
  moreover have "100000 \<le> ?n \<and> ?n \<le> 999998"
    using b by simp
  moreover have "length (toString ?n) = 6"
    using b by (simp add: toString_length_6)
  ultimately show ?thesis
    unfolding generateOTP_def toString_999999 by blast
qed

section \<open>Facts about the concrete addresses\<close>

lemma valid_email_alice: "valid_email alice"
  by code_simp

lemma valid_email_bob: "valid_email bob"
  by code_simp

lemma alice_nonempty: "alice \<noteq> []"
  by (simp add: alice_def)

lemma bob_nonempty: "bob \<noteq> []"
  by (simp add: bob_def)

lemma invalid_email_example: "\<not> valid_email ''bob5678@gmail.com''"
  by code_simp

section \<open>Verifying a one-time code\<close>

text \<open>
  Claim C5. For a request that carries an e-mail and a code, \<open>/api/verify-otp\<close> fails
  with NotFound when the store has no record for the e-mail; fails with Expired and
  deletes the record when the clock is past the record's expiry; otherwise fails with
  Mismatch and keeps the record (the state is unchanged) when the code differs from the
  stored one; and otherwise succeeds, deletes the record and adds the e-mail to the
  verified set.
\<close>

theorem verify_otp_outcomes:
  assumes "email \<noteq> []" and "code \<noteq> []"
  shows "(otpStore s email = None \<longrightarrow>
            post_verify_otp s ev email code = (Inl (400, NotFound), s)) \<and>
         (\<forall>r. otpStore s email = Some r \<and> now ev > expiry r \<longrightarrow>
            post_verify_otp s ev email code =
              (Inl (400, Expired), s\<lparr>otpStore := (otpStore s)(email := None)\<rparr>)) \<and>
         (\<forall>r. otpStore s email = Some r \<and> now ev \<le> expiry r \<and> code \<noteq> otp r \<longrightarrow>
            post_verify_otp s ev email code = (Inl (400, Mismatch), s)) \<and>
         (\<forall>r. otpStore s email = Some r \<and> now ev \<le> expiry r \<and> code = otp r \<longrightarrow>
            post_verify_otp s ev email code =
              (Inr (), s\<lparr>verifiedEmails := insert email (verifiedEmails s),
                          otpStore := (otpStore s)(email := None)\<rparr>))"
  using assms by (auto simp add: post_verify_otp_def)

theorem verify_otp_outcomes_witness:
  "post_verify_otp init_state env0 alice ''123456'' = (Inl (400, NotFound), init_state) \<and>
   post_verify_otp otp_state (env0\<lparr>now := 600001\<rparr>) alice ''123456'' =
     (Inl (400, Expired), otp_state\<lparr>otpStore := (otpStore otp_state)(alice := None)\<rparr>) \<and>
   post_verify_otp otp_state (env0\<lparr>now := 5\<rparr>) alice ''000000'' =
     (Inl (400, Mismatch), otp_state) \<and>
   post_verify_otp otp_state (env0\<lparr>now := 5\<rparr>) alice ''123456'' =
     (Inr (), otp_state\<lparr>verifiedEmails := insert alice (verifiedEmails otp_state),
                        otpStore := (otpStore otp_state)(alice := None)\<rparr>)"
  using verify_otp_outcomes [of alice "''123456''" init_state env0]
    verify_otp_outcomes [of alice "''123456''" otp_state "env0\<lparr>now := 600001\<rparr>"]
    verify_otp_outcomes [of alice "''000000''" otp_state "env0\<lparr>now := 5\<rparr>"]
    verify_otp_outcomes [of alice "''123456''" otp_state "env0\<lparr>now := 5\<rparr>"]
  by (simp add: alice_nonempty init_state_def otp_state_def env0_def)

text \<open>
  Claim C6, as stated, fails at the boundary itself: a code issued at time 0 and
  presented, correct, at time 600000 (issue time plus ten minutes) is accepted, since
  the route rejects only when \<open>Date.now() > expiry\<close>.
\<close>

theorem otp_expiry_boundary_counterexample:
  "fst (post_request_otp init_state env0 alice) = Inr () \<and>
   fst (post_verify_otp (snd (post_request_otp init_state env0 alice))
      (env0\<lparr>now := now env0 + 600000\<rparr>) alice ''100000'') = Inr ()"
  by (simp add: post_verify_otp_def post_request_otp_def generateOTP_0 alice_nonempty
      init_state_def env0_def)

text \<open>
  Claim C6, amended. An OTP issued by \<open>/api/request-otp\<close> and presented with the
  correct code fails with Expired when it is consumed strictly after the issue time plus
  ten minutes, and succeeds at or before that boundary.
\<close>

theorem otp_expiry_boundary:
  assumes "email \<noteq> []" and "mail_ok ev"
  shows "fst (post_request_otp s ev email) = Inr () \<and>
         fst (post_verify_otp (snd (post_request_otp s ev email)) ev' email
               (generateOTP (draw ev))) =
           (if now ev' > now ev + 600000 then Inl (400, Expired) else Inr ())"
  using assms
  by (simp add: post_verify_otp_def post_request_otp_def generateOTP_nonempty Let_def)

theorem otp_expiry_boundary_witness:
  "fst (post_request_otp init_state env0 alice) = Inr () \<and>
   fst (post_verify_otp (snd (post_request_otp init_state env0 alice))
         (env0\<lparr>now := 600000\<rparr>) alice (generateOTP (draw env0))) = Inr () \<and>
   fst (post_verify_otp (snd (post_request_otp init_state env0 alice))
         (env0\<lparr>now := 600001\<rparr>) alice (generateOTP (draw env0))) = Inl (400, Expired)"
  using otp_expiry_boundary [of alice env0 init_state "env0\<lparr>now := 600000\<rparr>"]
    otp_expiry_boundary [of alice env0 init_state "env0\<lparr>now := 600001\<rparr>"]
  by (simp add: alice_nonempty env0_def)

section \<open>Requesting a one-time code when the mail cannot be sent\<close>

text \<open>
  Claim C9, as stated, fails: when the mail transport rejects, the request reports
  DeliveryFailed, but no record has been stored for the e-mail, because
  \<open>sendOTPEmail\<close> throws before \<open>otpStore.set\<close> is reached.
\<close>

theorem otp_delivery_failure_counterexample:
  "fst (post_request_otp init_state (env0\<lparr>mail_ok := False\<rparr>) alice) =
     Inl (500, DeliveryFailed) \<and>
   otpStore (snd (post_request_otp init_state (env0\<lparr>mail_ok := False\<rparr>) alice)) alice = None"
  by (simp add: post_request_otp_def alice_nonempty init_state_def env0_def)

text \<open>
  Claim C9, amended. If the mail dispatch fails, the OTP request reports
  DeliveryFailed and leaves the whole state, the OTP store included, as it was: the new
  code is not stored, and a record issued earlier for the e-mail is neither replaced
  nor removed. The same holds for the item-bound request of the later revision, when
  the item exists and the e-mail is its reporter's.
\<close>

theorem otp_delivery_failure:
  assumes "email \<noteq> []" and "\<not> mail_ok ev"
  shows "post_request_otp s ev email = (Inl (500, DeliveryFailed), s) \<and>
         (ident \<noteq> [] \<and> db_ok ev \<and> map_option yourEmail (items s ident) = Some email \<longrightarrow>
            post_items_request_otp s ev ident email = (Inl (500, DeliveryFailed), s))"
  using assms by (auto simp add: post_request_otp_def post_items_request_otp_def Let_def)

theorem otp_delivery_failure_witness:
  "post_request_otp otp_state (env0\<lparr>mail_ok := False\<rparr>) alice =
     (Inl (500, DeliveryFailed), otp_state) \<and>
   post_items_request_otp state1 (env0\<lparr>mail_ok := False\<rparr>) ''item1'' alice =
     (Inl (500, DeliveryFailed), state1)"
  using otp_delivery_failure [where email = alice and ev = "env0\<lparr>mail_ok := False\<rparr>"
      and ident = "''item1''" and s = state1]
    otp_delivery_failure [where email = alice and ev = "env0\<lparr>mail_ok := False\<rparr>"
      and ident = "''item1''" and s = otp_state]
  by (simp add: alice_nonempty env0_def state1_def item1_def init_state_def)

section \<open>The submission quota\<close>

lemma seen_admitted:
  assumes "valid_email (sb_email b)" and "db_ok ev" and "ident \<in> dom (items s)"
    and "count_of (seenCounts s) (sb_email b) < 2"
  shows "\<exists>s'. post_items_seen s ev ident b = (Inr (mail_ok ev), s') \<and>
           count_of (seenCounts s') (sb_email b) = count_of (seenCounts s) (sb_email b) + 1 \<and>
           dom (items s') = dom (items s) \<and> verifiedEmails s' = verifiedEmails s \<and>
           claimCounts s' = claimCounts s"
  using assms by (auto simp add: post_items_seen_def Let_def count_of_def)

lemma seen_rejected:
  assumes "valid_email (sb_email b)" and "count_of (seenCounts s) (sb_email b) \<ge> 2"
  shows "post_items_seen s ev ident b = (Inl (400, QuotaExceeded), s)"
  using assms by (simp add: post_items_seen_def Let_def)

lemma claim_admitted:
  assumes "valid_email (cb_email c)" and "db_ok ev" and "ident \<in> dom (items s)"
    and "cb_email c \<in> verifiedEmails s"
    and "count_of (claimCounts s) (cb_email c) < 2"
  shows "\<exists>s'. post_items_claim s ev ident c = (Inr (mail_ok ev), s') \<and>
           count_of (claimCounts s') (cb_email c) = count_of (claimCounts s) (cb_email c) + 1 \<and>
           dom (items s') = dom (items s) \<and> verifiedEmails s' = verifiedEmails s \<and>
           seenCounts s' = seenCounts s"
  using assms by (auto simp add: post_items_claim_def Let_def count_of_def)

lemma claim_rejected:
  assumes "valid_email (cb_email c)" and "cb_email c \<in> verifiedEmails s"
    and "count_of (claimCounts s) (cb_email c) \<ge> 2"
  shows "post_items_claim s ev ident c = (Inl (400, QuotaExceeded), s)"
  using assms by (simp add: post_items_claim_def Let_def)

lemma seen_keeps_claimCounts:
  "claimCounts (snd (post_items_seen s ev ident b)) = claimCounts s"
  by (simp add: post_items_seen_def Let_def split: option.split)

lemma claim_keeps_seenCounts:
  "seenCounts (snd (post_items_claim s ev ident c)) = seenCounts s"
  by (simp add: post_items_claim_def Let_def split: option.split)

text \<open>
  How one request changes the counters of an e-mail \<open>e\<close>: a sighting by \<open>e\<close> that
  is admitted adds one to \<open>e\<close>'s sighting count, and every other request, whatever its
  route, its sender or its outcome, leaves that count as it was; the same for claims.
\<close>

lemma respond_seenCount:
  "count_of (seenCounts (snd (respond s ev rq))) e =
     count_of (seenCounts s) e + (if is_seen_by e rq \<and> fst (respond s ev rq) = None then 1 else 0)"
proof (cases rq)
  case (Seen ident body)
  then show ?thesis
    by (auto simp add: outcome_def post_items_seen_def Let_def count_of_def split: option.splits)
qed (auto simp add: outcome_def post_request_otp_def post_verify_otp_def post_items_def
    post_items_claim_def post_items_resolve_def Let_def split: option.splits)

lemma respond_claimCount:
  "count_of (claimCounts (snd (respond s ev rq))) e =
     count_of (claimCounts s) e + (if is_claim_by e rq \<and> fst (respond s ev rq) = None then 1 else 0)"
proof (cases rq)
  case (Claim ident body)
  then show ?thesis
    by (auto simp add: outcome_def post_items_claim_def Let_def count_of_def split: option.splits)
qed (auto simp add: outcome_def post_request_otp_def post_verify_otp_def post_items_def
    post_items_seen_def post_items_resolve_def Let_def split: option.splits)

lemma respond_seenCount_le:
  "count_of (seenCounts s) e \<le> 2 \<Longrightarrow> count_of (seenCounts (snd (respond s ev rq))) e \<le> 2"
proof (cases rq)
  case (Seen ident body)
  assume "count_of (seenCounts s) e \<le> 2"
  with Seen show ?thesis
    by (auto simp add: outcome_def post_items_seen_def Let_def count_of_def split: option.splits)
qed (auto simp add: outcome_def post_request_otp_def post_verify_otp_def post_items_def
    post_items_claim_def post_items_resolve_def Let_def split: option.splits)

lemma respond_claimCount_le:
  "count_of (claimCounts s) e \<le> 2 \<Longrightarrow> count_of (claimCounts (snd (respond s ev rq))) e \<le> 2"
proof (cases rq)
  case (Claim ident body)
  assume "count_of (claimCounts s) e \<le> 2"
  with Claim show ?thesis
    by (auto simp add: outcome_def post_items_claim_def Let_def count_of_def split: option.splits)
qed (auto simp add: outcome_def post_request_otp_def post_verify_otp_def post_items_def
    post_items_seen_def post_items_resolve_def Let_def split: option.splits)

lemma run_seenCount:
  "count_of (seenCounts (run s rs)) e = count_of (seenCounts s) e + admitted_seen e s rs"
proof (induction rs arbitrary: s)
  case Nil
  show ?case by simp
next
  case (Cons x rs)
  obtain ev rq where x: "x = (ev, rq)"
    by (cases x)
  show ?case
    unfolding x by (simp add: Cons.IH respond_seenCount)
qed

lemma run_claimCount:
  "count_of (claimCounts (run s rs)) e = count_of (claimCounts s) e + admitted_claim e s rs"
proof (induction rs arbitrary: s)
  case Nil
  show ?case by simp
next
  case (Cons x rs)
  obtain ev rq where x: "x = (ev, rq)"
    by (cases x)
  show ?case
    unfolding x by (simp add: Cons.IH respond_claimCount)
qed

lemma run_seenCount_le:
  "count_of (seenCounts s) e \<le> 2 \<Longrightarrow> count_of (seenCounts (run s rs)) e \<le> 2"
proof (induction rs arbitrary: s)
  case Nil
  then show ?case by simp
next
  case (Cons x rs)
  obtain ev rq where x: "x = (ev, rq)"
    by (cases x)
  from Cons.prems have "count_of (seenCounts (snd (respond s ev rq))) e \<le> 2"
    by (rule respond_seenCount_le)
  then show ?case
    unfolding x by (simp add: Cons.IH)
qed

lemma run_claimCount_le:
  "count_of (claimCounts s) e \<le> 2 \<Longrightarrow> count_of (claimCounts (run s rs)) e \<le> 2"
proof (induction rs arbitrary: s)
  case Nil
  then show ?case by simp
next
  case (Cons x rs)
  obtain ev rq where x: "x = (ev, rq)"
    by (cases x)
  from Cons.prems have "count_of (claimCounts (snd (respond s ev rq))) e \<le> 2"
    by (rule respond_claimCount_le)
  then show ?case
    unfolding x by (simp add: Cons.IH)
qed

lemma respond_keeps_items: "dom (items s) \<subseteq> dom (items (snd (respond s ev rq)))"
  by (cases rq)
    (auto simp add: outcome_def post_request_otp_def post_verify_otp_def post_items_def
      post_items_seen_def post_items_claim_def post_items_resolve_def Let_def
      split: option.splits if_splits)

lemma run_keeps_items: "dom (items s) \<subseteq> dom (items (run s rs))"
proof (induction rs arbitrary: s)
  case Nil
  show ?case by simp
next
  case (Cons x rs)
  obtain ev rq where x: "x = (ev, rq)"
    by (cases x)
  from respond_keeps_items [of s ev rq] Cons.IH [of "snd (respond s ev rq)"]
  show ?case
    unfolding x by auto
qed

text \<open>
  Claim C8. Let the server handle any sequence of requests one after the other, from a
  state in which the e-mail \<open>e\<close> has no sighting and no claim counted. At every point
  of the run \<open>e\<close>'s sighting counter is the number of sightings by \<open>e\<close> admitted so
  far, whatever other requests (by \<open>e\<close> or by others, claims included) came in between,
  and that number never exceeds two; likewise for claims. An otherwise valid sighting by
  \<open>e\<close> (institutional e-mail, existing item, database working) is admitted when fewer
  than two sightings by \<open>e\<close> have been admitted, so the first and the second are, and
  is rejected with QuotaExceeded, the state and so the counter unchanged, once two have
  been: the third is. The same holds for claims by a verified \<open>e\<close>, counted on their
  own: an admitted sighting leaves the claim counters unchanged and an admitted claim
  leaves the sighting counters unchanged.
\<close>

theorem quota_two_per_kind:
  assumes fresh: "count_of (seenCounts s0) e = 0" "count_of (claimCounts s0) e = 0"
  shows "count_of (seenCounts (run s0 rs)) e = admitted_seen e s0 rs \<and>
         count_of (claimCounts (run s0 rs)) e = admitted_claim e s0 rs \<and>
         admitted_seen e s0 rs \<le> 2 \<and> admitted_claim e s0 rs \<le> 2 \<and>
         (valid_email e \<and> sb_email b = e \<and> db_ok ev \<and> ident \<in> dom (items (run s0 rs)) \<longrightarrow>
            (if admitted_seen e s0 rs < 2
             then fst (post_items_seen (run s0 rs) ev ident b) = Inr (mail_ok ev) \<and>
                  count_of (seenCounts (snd (post_items_seen (run s0 rs) ev ident b))) e =
                    admitted_seen e s0 rs + 1 \<and>
                  claimCounts (snd (post_items_seen (run s0 rs) ev ident b)) =
                    claimCounts (run s0 rs)
             else post_items_seen (run s0 rs) ev ident b =
                    (Inl (400, QuotaExceeded), run s0 rs))) \<and>
         (valid_email e \<and> cb_email c = e \<and> e \<in> verifiedEmails (run s0 rs) \<and> db_ok ev \<and>
            ident \<in> dom (items (run s0 rs)) \<longrightarrow>
            (if admitted_claim e s0 rs < 2
             then fst (post_items_claim (run s0 rs) ev ident c) = Inr (mail_ok ev) \<and>
                  count_of (claimCounts (snd (post_items_claim (run s0 rs) ev ident c))) e =
                    admitted_claim e s0 rs + 1 \<and>
                  seenCounts (snd (post_items_claim (run s0 rs) ev ident c)) =
                    seenCounts (run s0 rs)
             else post_items_claim (run s0 rs) ev ident c =
                    (Inl (400, QuotaExceeded), run s0 rs)))"
proof -
  let ?s = "run s0 rs"
  have sc: "count_of (seenCounts ?s) e = admitted_seen e s0 rs"
    using run_seenCount [of s0 rs e] fresh by simp
  have cc: "count_of (claimCounts ?s) e = admitted_claim e s0 rs"
    using run_claimCount [of s0 rs e] fresh by simp
  have sle: "admitted_seen e s0 rs \<le> 2"
    using run_seenCount_le [of s0 e rs] fresh sc by simp
  have cle: "admitted_claim e s0 rs \<le> 2"
    using run_claimCount_le [of s0 e rs] fresh cc by simp
  have seen: "if admitted_seen e s0 rs < 2
             then fst (post_items_seen ?s ev ident b) = Inr (mail_ok ev) \<and>
                  count_of (seenCounts (snd (post_items_seen ?s ev ident b))) e =
                    admitted_seen e s0 rs + 1 \<and>
                  claimCounts (snd (post_items_seen ?s ev ident b)) = claimCounts ?s
             else post_items_seen ?s ev ident b = (Inl (400, QuotaExceeded), ?s)"
    if h: "valid_email e \<and> sb_email b = e \<and> db_ok ev \<and> ident \<in> dom (items ?s)"
  proof (cases "admitted_seen e s0 rs < 2")
    case True
    with h sc seen_admitted [of b ev ident ?s] show ?thesis
      by auto
  next
    case False
    with h sc seen_rejected [of b ?s ev ident] show ?thesis
      by auto
  qed
  have claim: "if admitted_claim e s0 rs < 2
             then fst (post_items_claim ?s ev ident c) = Inr (mail_ok ev) \<and>
                  count_of (claimCounts (snd (post_items_claim ?s ev ident c))) e =
                    admitted_claim e s0 rs + 1 \<and>
                  seenCounts (snd (post_items_claim ?s ev ident c)) = seenCounts ?s
             else post_items_claim ?s ev ident c = (Inl (400, QuotaExceeded), ?s)"
    if h: "valid_email e \<and> cb_email c = e \<and> e \<in> verifiedEmails ?s \<and> db_ok ev \<and>
            ident \<in> dom (items ?s)"
  proof (cases "admitted_claim e s0 rs < 2")
    case True
    with h cc claim_admitted [of c ev ident ?s] show ?thesis
      by auto
  next
    case False
    with h cc claim_rejected [of c ?s ev ident] show ?thesis
      by auto
  qed
  from sc cc sle cle seen claim show ?thesis
    by blast
qed


lemma alice_neq_bob: "alice \<noteq> bob" "bob \<noteq> alice"
  by (simp_all add: alice_def bob_def)

lemmas run_eval = quota_run1_def quota_run2_def outcome_def post_items_seen_def
  post_items_claim_def post_items_resolve_def Let_def count_of_def valid_email_alice
  valid_email_bob alice_neq_bob seen1_def seen2_def claim1_def env0_def quota_s0_def
  state1_def init_state_def item1_def

lemma quota_run1_counts:
  "admitted_seen bob quota_s0 quota_run1 = 1" "admitted_claim bob quota_s0 quota_run1 = 1"
  "bob \<in> verifiedEmails (run quota_s0 quota_run1)"
  by (simp_all add: run_eval)

lemma quota_run2_counts:
  "admitted_seen bob quota_s0 quota_run2 = 2" "admitted_claim bob quota_s0 quota_run2 = 2"
  "bob \<in> verifiedEmails (run quota_s0 quota_run2)"
  by (simp_all add: run_eval)

theorem quota_two_per_kind_witness:
  "admitted_seen bob quota_s0 quota_run1 = 1 \<and> admitted_claim bob quota_s0 quota_run1 = 1 \<and>
   fst (post_items_seen (run quota_s0 quota_run1) env0 ''item1'' seen1) = Inr True \<and>
   fst (post_items_claim (run quota_s0 quota_run1) env0 ''item1'' claim1) = Inr True \<and>
   admitted_seen bob quota_s0 quota_run2 = 2 \<and> admitted_claim bob quota_s0 quota_run2 = 2 \<and>
   count_of (seenCounts (run quota_s0 quota_run2)) bob = 2 \<and>
   count_of (claimCounts (run quota_s0 quota_run2)) bob = 2 \<and>
   post_items_seen (run quota_s0 quota_run2) env0 ''item1'' seen1 =
     (Inl (400, QuotaExceeded), run quota_s0 quota_run2) \<and>
   post_items_claim (run quota_s0 quota_run2) env0 ''item1'' claim1 =
     (Inl (400, QuotaExceeded), run quota_s0 quota_run2)"
proof -
  have fresh: "count_of (seenCounts quota_s0) bob = 0" "count_of (claimCounts quota_s0) bob = 0"
    by (simp_all add: quota_s0_def state1_def init_state_def count_of_def)
  have "''item1'' \<in> dom (items quota_s0)"
    by (simp add: quota_s0_def state1_def init_state_def)
  then have ids: "''item1'' \<in> dom (items (run quota_s0 quota_run1))"
    "''item1'' \<in> dom (items (run quota_s0 quota_run2))"
    using run_keeps_items [of quota_s0 quota_run1] run_keeps_items [of quota_s0 quota_run2]
    by blast+
  have hyps: "valid_email bob" "sb_email seen1 = bob" "cb_email claim1 = bob" "db_ok env0"
    "mail_ok env0"
    by (simp_all add: valid_email_bob seen1_def claim1_def env0_def)
  from quota_two_per_kind [OF fresh, where rs = quota_run1 and b = seen1 and c = claim1
      and ev = env0 and ident = "''item1''"]
    quota_two_per_kind [OF fresh, where rs = quota_run2 and b = seen1 and c = claim1
      and ev = env0 and ident = "''item1''"]
    ids hyps quota_run1_counts quota_run2_counts
  show ?thesis
    by simp
qed

section \<open>Submissions on a missing item\<close>

lemma seen1_changes_count: "seenCounts quota_s1 \<noteq> seenCounts quota_s0"
proof -
  have "count_of (seenCounts quota_s1) bob = 1"
    by (simp add: quota_s1_def post_items_seen_def Let_def valid_email_bob seen1_def env0_def
        quota_s0_def state1_def init_state_def count_of_def)
  moreover have "count_of (seenCounts quota_s0) bob = 0"
    by (simp add: quota_s0_def state1_def init_state_def count_of_def)
  ultimately show ?thesis
    by auto
qed

lemma claim1_changes_count:
  "claimCounts (snd (post_items_claim quota_s0 env0 ''item1'' claim1)) \<noteq> claimCounts quota_s0"
proof -
  have "count_of (claimCounts (snd (post_items_claim quota_s0 env0 ''item1'' claim1))) bob = 1"
    by (simp add: post_items_claim_def Let_def valid_email_bob claim1_def env0_def
        quota_s0_def state1_def init_state_def count_of_def)
  moreover have "count_of (claimCounts quota_s0) bob = 0"
    by (simp add: quota_s0_def state1_def init_state_def count_of_def)
  ultimately show ?thesis
    by auto
qed

text \<open>
  Claim C10. A sighting or a claim that passes the e-mail check (for a claim, also the
  verification check) and the quota check, and whose target item does not exist, fails
  with NotFound (404) and leaves the state, the quota counter included, as it was.
  A request that does change the counters is one that succeeded and whose entry has been
  appended to the item: the counter is incremented only after the item update.
\<close>

theorem missing_item_keeps_quota:
  "(valid_email (sb_email b) \<and> count_of (seenCounts s) (sb_email b) < 2 \<and> db_ok ev \<and>
      items s ident = None \<longrightarrow>
      post_items_seen s ev ident b = (Inl (404, NotFound), s)) \<and>
   (valid_email (cb_email c) \<and> cb_email c \<in> verifiedEmails s \<and>
      count_of (claimCounts s) (cb_email c) < 2 \<and> db_ok ev \<and> items s ident = None \<longrightarrow>
      post_items_claim s ev ident c = (Inl (404, NotFound), s)) \<and>
   (seenCounts (snd (post_items_seen s ev ident b)) \<noteq> seenCounts s \<longrightarrow>
      fst (post_items_seen s ev ident b) = Inr (mail_ok ev) \<and>
      (\<exists>it. items s ident = Some it \<and>
         map_option seenBy (items (snd (post_items_seen s ev ident b)) ident) =
           Some (seenBy it @ [\<lparr>seen_name = sb_name b, seen_phone = sb_phone b,
             seen_details = sb_details b, seen_date = now ev, seen_email = sb_email b\<rparr>]))) \<and>
   (claimCounts (snd (post_items_claim s ev ident c)) \<noteq> claimCounts s \<longrightarrow>
      fst (post_items_claim s ev ident c) = Inr (mail_ok ev) \<and>
      (\<exists>it. items s ident = Some it \<and>
         map_option claims (items (snd (post_items_claim s ev ident c)) ident) =
           Some (claims it @ [\<lparr>claim_name = cb_name c, claim_email = cb_email c,
             claim_details = cb_details c, claim_date = now ev\<rparr>])))"
proof (intro conjI impI)
  assume "valid_email (sb_email b) \<and> count_of (seenCounts s) (sb_email b) < 2 \<and> db_ok ev \<and>
      items s ident = None"
  then show "post_items_seen s ev ident b = (Inl (404, NotFound), s)"
    by (simp add: post_items_seen_def Let_def)
next
  assume "valid_email (cb_email c) \<and> cb_email c \<in> verifiedEmails s \<and>
      count_of (claimCounts s) (cb_email c) < 2 \<and> db_ok ev \<and> items s ident = None"
  then show "post_items_claim s ev ident c = (Inl (404, NotFound), s)"
    by (simp add: post_items_claim_def Let_def)
next
  assume a: "seenCounts (snd (post_items_seen s ev ident b)) \<noteq> seenCounts s"
  then show "fst (post_items_seen s ev ident b) = Inr (mail_ok ev)"
    by (simp add: post_items_seen_def Let_def split: if_splits option.splits)
  from a show "\<exists>it. items s ident = Some it \<and>
         map_option seenBy (items (snd (post_items_seen s ev ident b)) ident) =
           Some (seenBy it @ [\<lparr>seen_name = sb_name b, seen_phone = sb_phone b,
             seen_details = sb_details b, seen_date = now ev, seen_email = sb_email b\<rparr>])"
    by (simp add: post_items_seen_def Let_def split: if_splits option.splits)
next
  assume a: "claimCounts (snd (post_items_claim s ev ident c)) \<noteq> claimCounts s"
  then show "fst (post_items_claim s ev ident c) = Inr (mail_ok ev)"
    by (simp add: post_items_claim_def Let_def split: if_splits option.splits)
  from a show "\<exists>it. items s ident = Some it \<and>
         map_option claims (items (snd (post_items_claim s ev ident c)) ident) =
           Some (claims it @ [\<lparr>claim_name = cb_name c, claim_email = cb_email c,
             claim_details = cb_details c, claim_date = now ev\<rparr>])"
    by (simp add: post_items_claim_def Let_def split: if_splits option.splits)
qed

theorem missing_item_keeps_quota_witness:
  "post_items_seen quota_s0 env0 ''nope'' seen1 = (Inl (404, NotFound), quota_s0) \<and>
   post_items_claim quota_s0 env0 ''nope'' claim1 = (Inl (404, NotFound), quota_s0) \<and>
   fst (post_items_seen quota_s0 env0 ''item1'' seen1) = Inr True \<and>
   map_option seenBy (items quota_s1 ''item1'') =
     Some [\<lparr>seen_name = ''Bob'', seen_phone = ''5550100'', seen_details = ''Seen at the gate'',
       seen_date = 0, seen_email = bob\<rparr>] \<and>
   fst (post_items_claim quota_s0 env0 ''item1'' claim1) = Inr True \<and>
   map_option claims (items (snd (post_items_claim quota_s0 env0 ''item1'' claim1)) ''item1'') =
     Some [\<lparr>claim_name = ''Bob'', claim_email = bob, claim_details = ''It is mine'',
       claim_date = 0\<rparr>]"
proof -
  have hyps: "valid_email (sb_email seen1)" "valid_email (cb_email claim1)"
    "cb_email claim1 \<in> verifiedEmails quota_s0"
    "count_of (seenCounts quota_s0) (sb_email seen1) < 2"
    "count_of (claimCounts quota_s0) (cb_email claim1) < 2"
    "db_ok env0" "mail_ok env0" "items quota_s0 ''nope'' = None"
    "items quota_s0 ''item1'' = Some item1" "seenBy item1 = []" "claims item1 = []"
    by (simp_all add: valid_email_bob seen1_def claim1_def env0_def quota_s0_def state1_def
        init_state_def count_of_def item1_def)
  have vals: "sb_name seen1 = ''Bob''" "sb_phone seen1 = ''5550100''"
    "sb_details seen1 = ''Seen at the gate''" "sb_email seen1 = bob" "now env0 = 0"
    "cb_name claim1 = ''Bob''" "cb_email claim1 = bob" "cb_details claim1 = ''It is mine''"
    by (simp_all add: seen1_def claim1_def env0_def)
  from missing_item_keeps_quota [where s = quota_s0 and ev = env0 and ident = "''nope''"
      and b = seen1 and c = claim1]
    missing_item_keeps_quota [where s = quota_s0 and ev = env0 and ident = "''item1''"
      and b = seen1 and c = claim1]
    seen1_changes_count claim1_changes_count hyps
  show ?thesis
    by (simp add: quota_s1_def vals)
qed

section \<open>Claims and the verified set\<close>

lemma claim_never_consumes:
  "verifiedEmails (snd (post_items_claim s ev ident c)) = verifiedEmails s"
  by (simp add: post_items_claim_def Let_def split: option.split)

text \<open>
  Claim C4. An accepted claim should consume the claimant's verification, as
  \<open>POST /api/items\<close> does with \<open>verifiedEmails.delete\<close> after saving. The claim route
  only tests \<open>verifiedEmails.has(email)\<close>: after an accepted claim the claimant is still
  in the verified set, and the same verification authorizes a second claim as well as
  the creation of an item.
\<close>

theorem claim_keeps_verification:
  "bob \<in> verifiedEmails quota_s0 \<and>
   fst (post_items_claim quota_s0 env0 ''item1'' claim1) = Inr True \<and>
   bob \<in> verifiedEmails (snd (post_items_claim quota_s0 env0 ''item1'' claim1)) \<and>
   fst (post_items_claim (snd (post_items_claim quota_s0 env0 ''item1'' claim1)) env0
         ''item1'' claim1) = Inr True \<and>
   \<not> isl (fst (post_items (snd (post_items_claim quota_s0 env0 ''item1'' claim1)) env0 body2))"
proof -
  have after: "verifiedEmails (snd (post_items_claim quota_s0 env0 ''item1'' claim1)) = {bob}"
    by (simp add: claim_never_consumes quota_s0_def)
  have "db_ok env0"
    by (simp add: env0_def)
  then have "\<not> isl (fst (post_items (snd (post_items_claim quota_s0 env0 ''item1'' claim1)) env0 body2))"
    by (simp add: post_items_def Let_def after body2_def status_enum_def bob_nonempty)
  moreover have "fst (post_items_claim quota_s0 env0 ''item1'' claim1) = Inr True \<and>
    fst (post_items_claim (snd (post_items_claim quota_s0 env0 ''item1'' claim1)) env0
         ''item1'' claim1) = Inr True"
    by (simp add: post_items_claim_def Let_def valid_email_bob claim1_def env0_def
        quota_s0_def state1_def init_state_def count_of_def)
  ultimately show ?thesis
    using after by (simp add: quota_s0_def)
qed

section \<open>Resolving an item\<close>

text \<open>
  What the two later revisions of the resolve route do for the reporter of an existing
  item: they succeed exactly when the reporter's e-mail is in the verified set, and then
  remove it; otherwise they answer 403 and change nothing.
\<close>

lemma resolve_enhanced_verified:
  assumes "items s ident = Some it" and "yourEmail it = email" and "db_ok ev"
  shows "post_items_resolve_enhanced s ev ident email =
          (if email \<in> verifiedEmails s
           then (Inr (mail_ok ev), s\<lparr>items := (items s)(ident \<mapsto> it\<lparr>status := ''resolved''\<rparr>),
                   verifiedEmails := verifiedEmails s - {email}\<rparr>)
           else (Inl (403, NotVerified), s))"
  using assms by (simp add: post_items_resolve_enhanced_def)

lemma resolve_checked_verified:
  assumes "items s ident = Some it" and "yourEmail it = email" and "db_ok ev"
    and "valid_email email" and "ident \<noteq> []"
  shows "post_items_resolve_checked s ev ident email =
          (if email \<in> verifiedEmails s
           then (Inr (), s\<lparr>items := (items s)(ident \<mapsto> it\<lparr>status := ''resolved''\<rparr>),
                   verifiedEmails := verifiedEmails s - {email}\<rparr>)
           else (Inl (403, NotVerified), s))"
  using assms by (auto simp add: post_items_resolve_checked_def valid_email_def)

lemma resolved_item_unchanged:
  assumes "items s ident = Some it" and "status it = ''resolved''"
  shows "s\<lparr>items := (items s)(ident \<mapsto> it\<lparr>status := ''resolved''\<rparr>)\<rparr> = s"
proof -
  from assms(2) have "it\<lparr>status := ''resolved''\<rparr> = it"
    by (cases it) simp
  with assms(1) have "(items s)(ident \<mapsto> it\<lparr>status := ''resolved''\<rparr>) = items s"
    by (simp add: map_upd_triv)
  then show ?thesis
    by simp
qed

text \<open>
  Claim C1. Resolving should require a live verification of the reporter's e-mail and
  consume it, as the two later revisions of the route do. The route of \<open>server.js\<close> has
  no such test: for an item reported by an address that is not in the verified set, the
  request with that address succeeds and the item becomes resolved.
\<close>

theorem resolve_without_verification:
  "alice \<notin> verifiedEmails state1 \<and>
   fst (post_items_resolve state1 env0 ''item1'' alice) = Inr True \<and>
   map_option status (items (snd (post_items_resolve state1 env0 ''item1'' alice)) ''item1'') =
     Some ''resolved''"
  by (simp add: post_items_resolve_def state1_def init_state_def env0_def item1_def)

text \<open>
  Claim C3, as stated, fails: after a first successful resolve the item is resolved, and
  a second resolve call on it by the reporter succeeds again.
\<close>

theorem resolve_twice_counterexample:
  "fst (post_items_resolve state1 env0 ''item1'' alice) = Inr True \<and>
   map_option status (items (snd (post_items_resolve state1 env0 ''item1'' alice)) ''item1'') =
     Some ''resolved'' \<and>
   fst (post_items_resolve (snd (post_items_resolve state1 env0 ''item1'' alice)) env0
         ''item1'' alice) = Inr True"
  by (simp add: post_items_resolve_def state1_def init_state_def env0_def item1_def)

text \<open>
  Claim C3, amended. No revision of the resolve route looks at the item's status. For an
  item that is already resolved, a further resolve call by its reporter succeeds again
  in \<open>server.js\<close> and leaves the state as it was; in the two later revisions it
  succeeds again when the reporter's e-mail is in the verified set (which it leaves) and
  fails with NotVerified (403) otherwise, never with a Conflict.
\<close>

theorem resolve_again_succeeds:
  assumes "items s ident = Some it" and "status it = ''resolved''"
    and "yourEmail it = email" and "db_ok ev"
  shows "post_items_resolve s ev ident email = (Inr (mail_ok ev), s) \<and>
         post_items_resolve_enhanced s ev ident email =
           (if email \<in> verifiedEmails s
            then (Inr (mail_ok ev), s\<lparr>verifiedEmails := verifiedEmails s - {email}\<rparr>)
            else (Inl (403, NotVerified), s)) \<and>
         (valid_email email \<and> ident \<noteq> [] \<longrightarrow>
            post_items_resolve_checked s ev ident email =
              (if email \<in> verifiedEmails s
               then (Inr (), s\<lparr>verifiedEmails := verifiedEmails s - {email}\<rparr>)
               else (Inl (403, NotVerified), s)))"
proof -
  note same = resolved_item_unchanged [OF assms(1) assms(2)]
  have "post_items_resolve s ev ident email = (Inr (mail_ok ev), s)"
    using assms same by (simp add: post_items_resolve_def)
  moreover have "post_items_resolve_enhanced s ev ident email =
           (if email \<in> verifiedEmails s
            then (Inr (mail_ok ev), s\<lparr>verifiedEmails := verifiedEmails s - {email}\<rparr>)
            else (Inl (403, NotVerified), s))"
    using resolve_enhanced_verified [OF assms(1) assms(3) assms(4)] same by simp
  moreover have "valid_email email \<and> ident \<noteq> [] \<longrightarrow>
            post_items_resolve_checked s ev ident email =
              (if email \<in> verifiedEmails s
               then (Inr (), s\<lparr>verifiedEmails := verifiedEmails s - {email}\<rparr>)
               else (Inl (403, NotVerified), s))"
    using resolve_checked_verified [OF assms(1) assms(3) assms(4)] same by simp
  ultimately show ?thesis
    by blast
qed

theorem resolve_again_succeeds_witness:
  "post_items_resolve resolved_state env0 ''item1'' alice = (Inr True, resolved_state) \<and>
   post_items_resolve_enhanced resolved_state env0 ''item1'' alice =
     (Inl (403, NotVerified), resolved_state) \<and>
   post_items_resolve_checked resolved_state env0 ''item1'' alice =
     (Inl (403, NotVerified), resolved_state) \<and>
   post_items_resolve_enhanced resolved_ver_state env0 ''item1'' alice =
     (Inr True, resolved_ver_state\<lparr>verifiedEmails := {}\<rparr>) \<and>
   post_items_resolve_checked resolved_ver_state env0 ''item1'' alice =
     (Inr (), resolved_ver_state\<lparr>verifiedEmails := {}\<rparr>)"
proof -
  have it: "items resolved_state ''item1'' = Some (item1\<lparr>status := ''resolved''\<rparr>)"
    "items resolved_ver_state ''item1'' = Some (item1\<lparr>status := ''resolved''\<rparr>)"
    by (simp_all add: resolved_ver_state_def resolved_state_def init_state_def)
  have hyps: "status (item1\<lparr>status := ''resolved''\<rparr>) = ''resolved''"
    "yourEmail (item1\<lparr>status := ''resolved''\<rparr>) = alice" "db_ok env0"
    by (simp_all add: item1_def env0_def)
  have more: "mail_ok env0" "valid_email alice" "alice \<notin> verifiedEmails resolved_state"
    "verifiedEmails resolved_ver_state = {alice}"
    by (simp_all add: env0_def valid_email_alice resolved_ver_state_def resolved_state_def
        init_state_def)
  from resolve_again_succeeds [OF it(1) hyps] resolve_again_succeeds [OF it(2) hyps] more
  show ?thesis
    by simp
qed

section \<open>Creating an item\<close>

lemma create_old_rejects_resolved:
  assumes "body_status b = ''resolved''"
  shows "isl (fst (post_items_old s ev b)) \<and> snd (post_items_old s ev b) = s"
  using assms by (simp add: post_items_old_def Let_def status_enum_old_def)

text \<open>
  Claim C2. Create should reject the initial status \<open>resolved\<close>, as the older document
  does through its schema. In \<open>server.js\<close> the schema's \<open>enum\<close> was widened with
  \<open>resolved\<close> for the resolve route, and the create route, which only requires a
  non-empty status, now accepts it: the request of a verified reporter with the initial
  status \<open>resolved\<close> is answered with the new item, stored with that status, while the
  older create route rejects the same request and leaves the state as it was.
\<close>

theorem create_accepts_resolved:
  "body_status body1 = ''resolved'' \<and>
   \<not> isl (fst (post_items ver_state env0 body1)) \<and>
   status (projr (fst (post_items ver_state env0 body1))) = ''resolved'' \<and>
   map_option status (items (snd (post_items ver_state env0 body1)) ''item2'') =
     Some ''resolved'' \<and>
   post_items_old ver_state env0 body1 = (Inl (500, ValidationError), ver_state)"
  by (simp add: post_items_def post_items_old_def Let_def body1_def ver_state_def
      init_state_def env0_def status_enum_def status_enum_old_def alice_nonempty)

end
